theory Spec2Isabelle
  imports Main
begin

section \<open>Python values handed over by the extraction library\<close>

text \<open>
  \<^verbatim>\<open>ydl.extract_info\<close> returns an untyped value (\<^verbatim>\<open>Any\<close>); the code inspects it with
  \<^verbatim>\<open>isinstance\<close>, truthiness, \<^verbatim>\<open>.get\<close> and subscription. The values are modelled as the
  JSON-like part of Python: \<^verbatim>\<open>None\<close>, integers (a \<^verbatim>\<open>bool\<close> is the integer 0 or 1, with
  which it compares and hashes equal), strings, lists and dictionaries with string keys.
  A dictionary is an association list read with \<open>map_of\<close>. A \<open>string\<close> holds one
  \<open>char\<close> per character of the Python \<^verbatim>\<open>str\<close>.
\<close>

datatype pyval =
    PyNone
  | PyInt int
  | PyStr string
  | PyList "pyval list"
  | PyDict "(string \<times> pyval) list"

text \<open>\<^verbatim>\<open>bool(v)\<close>, as \<^verbatim>\<open>not v\<close> reads it.\<close>

fun truthy :: "pyval \<Rightarrow> bool" where
  "truthy PyNone = False"
| "truthy (PyInt n) = (n \<noteq> 0)"
| "truthy (PyStr s) = (s \<noteq> [])"
| "truthy (PyList xs) = (xs \<noteq> [])"
| "truthy (PyDict d) = (d \<noteq> [])"

fun isinstance_dict :: "pyval \<Rightarrow> bool" where
  "isinstance_dict (PyDict d) = True"
| "isinstance_dict v = False"

fun isinstance_list :: "pyval \<Rightarrow> bool" where
  "isinstance_list (PyList xs) = True"
| "isinstance_list v = False"

text \<open>The items of a value already known to be a list.\<close>

fun list_items :: "pyval \<Rightarrow> pyval list" where
  "list_items (PyList xs) = xs"
| "list_items v = []"

text \<open>Lists and dictionaries are unhashable: \<^verbatim>\<open>set(ids)\<close> raises \<^verbatim>\<open>TypeError\<close> on them.\<close>

fun hashable :: "pyval \<Rightarrow> bool" where
  "hashable (PyList xs) = False"
| "hashable (PyDict d) = False"
| "hashable v = True"

section \<open>Failures\<close>

text \<open>
  Every \<^verbatim>\<open>raise\<close> of the source and every exception its operations can throw is a value:
  \<^item> \<open>InvalidResponse\<close>: \<^verbatim>\<open>ValueError("Extract info didn't return a dict.")\<close>
  \<^item> \<open>EmptyResult c\<close>: \<^verbatim>\<open>ValueError(f"No videos for channel: {channelname}")\<close>
  \<^item> \<open>MalformedEntry\<close>: \<^verbatim>\<open>ValueError("Entry is not a dict.")\<close>
  \<^item> \<open>InvalidPath p\<close>: \<^verbatim>\<open>ValueError(f"Not a valid directory: {dirpath}")\<close>
  \<^item> \<open>KeyError k\<close>: the subscription \<^verbatim>\<open>entry["id"]\<close> on a dictionary without that key
  \<^item> \<open>TypeError\<close>: \<^verbatim>\<open>set(ids)\<close> on an unhashable item, \<^verbatim>\<open>BASE_URL + video_id\<close> on a
    non-string
  \<^item> \<open>CollaboratorError m\<close>: an exception thrown by the extraction or download library
  \<^item> \<open>OSError m\<close>: the error that \<^verbatim>\<open>dirpath.is_dir()\<close> raises again when the file system
    refuses the query for a reason other than a missing file (a name that is too long, a
    directory that may not be searched)
\<close>

datatype error =
    InvalidResponse
  | EmptyResult string
  | MalformedEntry
  | InvalidPath string
  | KeyError string
  | TypeError
  | CollaboratorError string
  | OSError string

text \<open>\<^verbatim>\<open>d.get(k)\<close> and \<^verbatim>\<open>d[k]\<close>.\<close>

definition dict_get :: "(string \<times> pyval) list \<Rightarrow> string \<Rightarrow> pyval" where
  "dict_get d k = (case map_of d k of None \<Rightarrow> PyNone | Some v \<Rightarrow> v)"

definition dict_getitem :: "(string \<times> pyval) list \<Rightarrow> string \<Rightarrow> error + pyval" where
  "dict_getitem d k = (case map_of d k of None \<Rightarrow> Inl (KeyError k) | Some v \<Rightarrow> Inr v)"

section \<open>The outside world and the calls made to it\<close>

record postprocessor =
  pp_key :: string
  add_chapters :: bool
  add_metadata :: bool
  add_infojson :: string

record ydl_opts =
  paths_home :: string
  postprocessors :: "postprocessor list"

text \<open>
  The collaborators are parameters of the model. A path is its text \<^verbatim>\<open>str(path)\<close>.
  \<^item> \<open>extract_info url\<close>: the result of \<^verbatim>\<open>ydl.extract_info(url, download=False)\<close> on a
    \<^verbatim>\<open>YoutubeDL\<close> built with \<^verbatim>\<open>extract_flat\<close> and \<^verbatim>\<open>ignoreerrors\<close>, or the message
    of the exception it throws
  \<^item> \<open>is_dir p\<close>: the truth value \<^verbatim>\<open>p.is_dir()\<close> returns, or the message of the
    \<^verbatim>\<open>OSError\<close> it raises
  \<^item> \<open>glob_star p\<close>: \<^verbatim>\<open>str(file)\<close> for every \<^verbatim>\<open>file\<close> of \<^verbatim>\<open>p.glob("*")\<close>
  \<^item> \<open>download opts urls\<close>: the message of the exception that
    \<^verbatim>\<open>YoutubeDL(opts).download(urls)\<close> throws, if it throws one
\<close>

record world =
  extract_info :: "string \<Rightarrow> string + pyval"
  is_dir :: "string \<Rightarrow> string + bool"
  glob_star :: "string \<Rightarrow> string list"
  download :: "ydl_opts \<Rightarrow> string list \<Rightarrow> string option"

text \<open>
  What a run does to the outside, in order: the calls to the collaborators and the two
  \<^verbatim>\<open>print\<close> lines (\<open>PrintDownloading n\<close> is \<^verbatim>\<open>print(f"Downloading {len(urls)} missing videos")\<close>,
  \<open>PrintWouldDownload urls\<close> is \<^verbatim>\<open>print(f"Would download: {urls}")\<close>).
\<close>

datatype event =
    ExtractInfo string
  | IsDir string
  | Glob string
  | PrintDownloading nat
  | PrintWouldDownload "string list"
  | Download ydl_opts "string list"

text \<open>A call yields the events it caused and its result or its exception.\<close>

type_synonym 'a io = "event list \<times> (error + 'a)"

section \<open>Python sets\<close>

text \<open>
  A Python set is a list without duplicates; the order in which Python iterates over a set
  is not fixed by the language, so the theorems speak of \<open>set\<close> and \<open>length\<close> of these lists.
\<close>

definition py_set :: "pyval list \<Rightarrow> error + pyval list" where
  "py_set ids = (if list_all hashable ids then Inr (remdups ids) else Inl TypeError)"

text \<open>\<^verbatim>\<open>xs.difference(ys)\<close>; a string equals no value but the same string.\<close>

definition difference :: "pyval list \<Rightarrow> string list \<Rightarrow> pyval list" where
  "difference xs ys = filter (\<lambda>x. x \<notin> set (map PyStr ys)) xs"

section \<open>The remote lister\<close>

text \<open>The loop over \<^verbatim>\<open>entries\<close>, with the list \<^verbatim>\<open>ids\<close> built so far.\<close>

fun collect_ids :: "pyval list \<Rightarrow> pyval list \<Rightarrow> error + pyval list" where
  "collect_ids [] ids = Inr ids"
| "collect_ids (entry # rest) ids =
     (if \<not> isinstance_dict entry then Inl MalformedEntry
      else (case entry of
              PyDict d \<Rightarrow>
                (case dict_getitem d ''id'' of
                   Inl e \<Rightarrow> Inl e
                 | Inr v \<Rightarrow> collect_ids rest (ids @ [v]))
            | _ \<Rightarrow> Inl MalformedEntry))"

text \<open>The part of the lister after the call to the library.\<close>

definition ids_from_info :: "string \<Rightarrow> pyval \<Rightarrow> error + pyval list" where
  "ids_from_info channelname info =
     (case info of
        PyDict d \<Rightarrow>
          (let entries = dict_get d ''entries'' in
           if \<not> truthy entries \<or> \<not> isinstance_list entries
           then Inl (EmptyResult channelname)
           else (case collect_ids (list_items entries) [] of
                   Inl e \<Rightarrow> Inl e
                 | Inr ids \<Rightarrow> py_set ids))
      | _ \<Rightarrow> Inl InvalidResponse)"

definition channel_url :: "string \<Rightarrow> string" where
  "channel_url channelname = ''https://www.youtube.com/'' @ channelname @ ''/videos''"

definition get_all_video_ids_from_channel :: "world \<Rightarrow> string \<Rightarrow> pyval list io" where
  "get_all_video_ids_from_channel w channelname =
     ([ExtractInfo (channel_url channelname)],
      case extract_info w (channel_url channelname) of
        Inl m \<Rightarrow> Inl (CollaboratorError m)
      | Inr info \<Rightarrow> ids_from_info channelname info)"

section \<open>The local lister\<close>

definition newline :: char where
  "newline = CHR 0x0A"

text \<open>
  \<^verbatim>\<open>VIDEO_ID_PATTERN = re.compile(r"\[(.{11})\]")\<close>: an opening bracket, eleven characters
  none of which is a newline (the pattern is compiled without \<^verbatim>\<open>DOTALL\<close>), a closing
  bracket. \<open>VIDEO_ID_PATTERN_match text\<close> is the match that starts at the first character
  of \<open>text\<close>, given by its \<^verbatim>\<open>group(1)\<close>.
\<close>

fun VIDEO_ID_PATTERN_match :: "string \<Rightarrow> string option" where
  "VIDEO_ID_PATTERN_match [] = None"
| "VIDEO_ID_PATTERN_match (c # rest) =
     (if c = CHR ''['' \<and> 12 \<le> length rest \<and> newline \<notin> set (take 11 rest)
         \<and> rest ! 11 = CHR '']''
      then Some (take 11 rest) else None)"

text \<open>\<^verbatim>\<open>VIDEO_ID_PATTERN.search(text)\<close>: the match at the leftmost position that has one.\<close>

fun VIDEO_ID_PATTERN_search :: "string \<Rightarrow> string option" where
  "VIDEO_ID_PATTERN_search [] = None"
| "VIDEO_ID_PATTERN_search (c # rest) =
     (case VIDEO_ID_PATTERN_match (c # rest) of
        Some g \<Rightarrow> Some g
      | None \<Rightarrow> VIDEO_ID_PATTERN_search rest)"

text \<open>
  The body of the loop over the entries of the directory, on the path text \<^verbatim>\<open>str(file)\<close>
  and the list \<^verbatim>\<open>ids\<close> built so far: no match, or an empty group, leaves \<^verbatim>\<open>ids\<close> as
  it is.
\<close>

definition scan_file :: "string \<Rightarrow> string list \<Rightarrow> string list" where
  "scan_file file ids =
     (case VIDEO_ID_PATTERN_search file of
        None \<Rightarrow> ids
      | Some video_id \<Rightarrow> (if video_id \<noteq> [] then ids @ [video_id] else ids))"

definition get_all_video_ids_from_path :: "world \<Rightarrow> string \<Rightarrow> string list io" where
  "get_all_video_ids_from_path w dirpath =
     (case is_dir w dirpath of
        Inl m \<Rightarrow> ([IsDir dirpath], Inl (OSError m))
      | Inr b \<Rightarrow>
          (if \<not> b then ([IsDir dirpath], Inl (InvalidPath dirpath))
           else ([IsDir dirpath, Glob dirpath],
                 Inr (remdups (fold scan_file (glob_star w dirpath) [])))))"

section \<open>The diff computer\<close>

definition get_all_video_ids_not_locally_available ::
  "world \<Rightarrow> string \<Rightarrow> string \<Rightarrow> pyval list io" where
  "get_all_video_ids_not_locally_available w channelname localpath =
     (case get_all_video_ids_from_channel w channelname of
        (ev1, Inl e) \<Rightarrow> (ev1, Inl e)
      | (ev1, Inr channel_ids) \<Rightarrow>
          (case get_all_video_ids_from_path w localpath of
             (ev2, Inl e) \<Rightarrow> (ev1 @ ev2, Inl e)
           | (ev2, Inr local_ids) \<Rightarrow>
               (ev1 @ ev2, Inr (difference channel_ids local_ids))))"

section \<open>The downloader\<close>

definition BASE_URL :: string where
  "BASE_URL = ''https://www.youtube.com/watch?v=''"

text \<open>The comprehension \<^verbatim>\<open>[BASE_URL + video_id for video_id in ...]\<close>.\<close>

fun build_urls :: "pyval list \<Rightarrow> error + string list" where
  "build_urls [] = Inr []"
| "build_urls (video_id # rest) =
     (case video_id of
        PyStr s \<Rightarrow>
          (case build_urls rest of
             Inl e \<Rightarrow> Inl e
           | Inr urls \<Rightarrow> Inr ((BASE_URL @ s) # urls))
      | _ \<Rightarrow> Inl TypeError)"

definition make_ydl_opts :: "string \<Rightarrow> ydl_opts" where
  "make_ydl_opts outpath =
     \<lparr>paths_home = outpath,
      postprocessors =
        [\<lparr>pp_key = ''FFmpegMetadata'', add_chapters = True, add_metadata = True,
          add_infojson = ''if_exists''\<rparr>]\<rparr>"

text \<open>
  \<open>outpath\<close> is \<^verbatim>\<open>Path | None\<close>; a \<^verbatim>\<open>Path\<close> is always truthy, so \<^verbatim>\<open>not outpath\<close> holds
  exactly for \<^verbatim>\<open>None\<close>.
\<close>

definition download_missing_videos ::
  "world \<Rightarrow> string \<Rightarrow> string \<Rightarrow> string option \<Rightarrow> bool \<Rightarrow> unit io" where
  "download_missing_videos w channelname localpath outpath dry_run =
     (let outpath' = (case outpath of None \<Rightarrow> localpath | Some p \<Rightarrow> p) in
      case get_all_video_ids_not_locally_available w channelname localpath of
        (ev, Inl e) \<Rightarrow> (ev, Inl e)
      | (ev, Inr missing) \<Rightarrow>
          (case build_urls missing of
             Inl e \<Rightarrow> (ev, Inl e)
           | Inr urls \<Rightarrow>
               (let ev' = ev @ [PrintDownloading (length urls)];
                    opts = make_ydl_opts outpath'
                in if dry_run then (ev' @ [PrintWouldDownload urls], Inr ())
                   else (ev' @ [Download opts urls],
                         case download w opts urls of
                           Some m \<Rightarrow> Inl (CollaboratorError m)
                         | None \<Rightarrow> Inr ()))))"

section \<open>Notions the properties are stated with\<close>

text \<open>
  \<open>bracketed_run_at text i\<close>: at index \<open>i\<close> of \<open>text\<close> there is an opening bracket, and twelve
  characters later a closing one (eleven characters of any kind between them).
  \<open>pattern_at text i\<close>: moreover none of the eleven is a newline, which is what the pattern
  asks for. \<open>group_at text i\<close> is the run of eleven.
\<close>

definition bracketed_run_at :: "string \<Rightarrow> nat \<Rightarrow> bool" where
  "bracketed_run_at text i =
     (i + 12 < length text \<and> text ! i = CHR ''['' \<and> text ! (i + 12) = CHR '']'')"

definition group_at :: "string \<Rightarrow> nat \<Rightarrow> string" where
  "group_at text i = take 11 (drop (Suc i) text)"

definition pattern_at :: "string \<Rightarrow> nat \<Rightarrow> bool" where
  "pattern_at text i = (bracketed_run_at text i \<and> newline \<notin> set (group_at text i))"

text \<open>An entry of the remote listing from which the loop takes an identifier.\<close>

definition has_id :: "pyval \<Rightarrow> bool" where
  "has_id entry = (case entry of PyDict d \<Rightarrow> map_of d ''id'' \<noteq> None | _ \<Rightarrow> False)"

definition lacks_id :: "pyval \<Rightarrow> bool" where
  "lacks_id entry = (case entry of PyDict d \<Rightarrow> map_of d ''id'' = None | _ \<Rightarrow> False)"

definition id_of :: "pyval \<Rightarrow> pyval" where
  "id_of entry = (case entry of PyDict d \<Rightarrow> dict_get d ''id'' | _ \<Rightarrow> PyNone)"

definition is_Download :: "event \<Rightarrow> bool" where
  "is_Download e = (case e of Download opts urls \<Rightarrow> True | _ \<Rightarrow> False)"

text \<open>The events that go out to the network: the remote listing query and the download.\<close>

definition is_network_fetch :: "event \<Rightarrow> bool" where
  "is_network_fetch e =
     (case e of ExtractInfo url \<Rightarrow> True | Download opts urls \<Rightarrow> True | _ \<Rightarrow> False)"

text \<open>
  A world for concrete runs: every channel lists \<open>info\<close>, \<open>dir\<close> is the only directory and
  holds the entries with the path texts \<open>files\<close>, and downloads succeed.
\<close>

definition test_world :: "pyval \<Rightarrow> string \<Rightarrow> string list \<Rightarrow> world" where
  "test_world info dir files =
     \<lparr>extract_info = (\<lambda>url. Inr info),
      is_dir = (\<lambda>p. Inr (p = dir)),
      glob_star = (\<lambda>p. if p = dir then files else []),
      download = (\<lambda>opts urls. None)\<rparr>"

text \<open>A listing of the identifiers \<open>ids\<close>, one entry each.\<close>

definition listing :: "pyval list \<Rightarrow> pyval" where
  "listing ids = PyDict [(''entries'', PyList (map (\<lambda>v. PyDict [(''id'', v)]) ids))]"

section \<open>The pattern and the search\<close>

lemma match_Cons:
  "VIDEO_ID_PATTERN_match (c # rest) =
     (if pattern_at (c # rest) 0 then Some (group_at (c # rest) 0) else None)"
proof -
  have "(12 \<le> length rest) = (12 < length (c # rest))" by auto
  then show ?thesis
    by (simp add: pattern_at_def bracketed_run_at_def group_at_def)
qed

lemma pattern_at_Cons: "pattern_at (c # s) (Suc i) = pattern_at s i"
proof -
  have "(c # s) ! Suc (i + 12) = s ! (i + 12)" by (rule nth_Cons_Suc)
  then have "(c # s) ! (Suc i + 12) = s ! (i + 12)" by simp
  then show ?thesis
    unfolding pattern_at_def bracketed_run_at_def group_at_def
    by (simp add: add.commute)
qed

lemma group_at_Cons: "group_at (c # s) (Suc i) = group_at s i"
  by (simp add: group_at_def)

text \<open>The search returns the group of the leftmost position where the pattern matches.\<close>

lemma search_first:
  "pattern_at s i \<Longrightarrow> (\<forall>j<i. \<not> pattern_at s j) \<Longrightarrow>
   VIDEO_ID_PATTERN_search s = Some (group_at s i)"
proof (induction s arbitrary: i)
  case Nil
  then show ?case by (simp add: pattern_at_def bracketed_run_at_def)
next
  case (Cons c s)
  note m = match_Cons [of c s]
  show ?case
  proof (cases i)
    case 0
    with Cons.prems m show ?thesis by simp
  next
    case (Suc k)
    with Cons.prems have "\<not> pattern_at (c # s) 0" by blast
    moreover have "pattern_at s k" using Cons.prems Suc by (simp add: pattern_at_Cons)
    moreover have "\<forall>j<k. \<not> pattern_at s j"
    proof (intro allI impI)
      fix j assume "j < k"
      then have "\<not> pattern_at (c # s) (Suc j)" using Cons.prems Suc by simp
      then show "\<not> pattern_at s j" by (simp add: pattern_at_Cons)
    qed
    ultimately show ?thesis
      using Cons.IH [of k] m Suc by (simp add: group_at_Cons)
  qed
qed

lemma search_None: "(\<forall>i. \<not> pattern_at s i) \<Longrightarrow> VIDEO_ID_PATTERN_search s = None"
proof (induction s)
  case Nil
  then show ?case by simp
next
  case (Cons c s)
  have m: "VIDEO_ID_PATTERN_match (c # s) = None"
    using match_Cons [of c s] Cons.prems by simp
  have "\<forall>i. \<not> pattern_at s i"
  proof
    fix i
    have "\<not> pattern_at (c # s) (Suc i)" using Cons.prems by simp
    then show "\<not> pattern_at s i" by (simp add: pattern_at_Cons)
  qed
  with Cons.IH m show ?case by simp
qed

lemma search_Some_iff:
  "VIDEO_ID_PATTERN_search s = Some g \<longleftrightarrow>
   (\<exists>i. pattern_at s i \<and> (\<forall>j<i. \<not> pattern_at s j) \<and> g = group_at s i)"
proof
  assume s: "VIDEO_ID_PATTERN_search s = Some g"
  have ex: "\<exists>i. pattern_at s i"
  proof (rule ccontr)
    assume "\<not> (\<exists>i. pattern_at s i)"
    then have "VIDEO_ID_PATTERN_search s = None" by (simp add: search_None)
    with s show False by simp
  qed
  define i where "i = (LEAST i. pattern_at s i)"
  have i: "pattern_at s i" "\<forall>j<i. \<not> pattern_at s j"
    using ex unfolding i_def by (auto intro: LeastI_ex dest: not_less_Least)
  have "VIDEO_ID_PATTERN_search s = Some (group_at s i)"
    using i by (rule search_first)
  with s have "g = group_at s i" by simp
  with i show "\<exists>i. pattern_at s i \<and> (\<forall>j<i. \<not> pattern_at s j) \<and> g = group_at s i"
    by blast
next
  assume "\<exists>i. pattern_at s i \<and> (\<forall>j<i. \<not> pattern_at s j) \<and> g = group_at s i"
  then show "VIDEO_ID_PATTERN_search s = Some g" using search_first by blast
qed

lemma pattern_at_length: "pattern_at s i \<Longrightarrow> length (group_at s i) = 11"
  by (auto simp: pattern_at_def bracketed_run_at_def group_at_def)

lemma search_length: "VIDEO_ID_PATTERN_search s = Some g \<Longrightarrow> length g = 11"
  by (auto simp: search_Some_iff pattern_at_length)

lemma scan_file_eq:
  "scan_file path ids =
     (case VIDEO_ID_PATTERN_search path of None \<Rightarrow> ids | Some g \<Rightarrow> ids @ [g])"
proof (cases "VIDEO_ID_PATTERN_search path")
  case None
  then show ?thesis by (simp add: scan_file_def)
next
  case (Some g)
  then have "length g = 11" by (rule search_length)
  then have "g \<noteq> []" by auto
  with Some show ?thesis by (simp add: scan_file_def)
qed

lemma set_fold_scan_file:
  "set (fold scan_file paths ids) =
     set ids \<union> {g. \<exists>path\<in>set paths. VIDEO_ID_PATTERN_search path = Some g}"
proof (induction paths arbitrary: ids)
  case Nil
  then show ?case by simp
next
  case (Cons p paths)
  show ?case
  proof (cases "VIDEO_ID_PATTERN_search p")
    case None
    then show ?thesis using Cons.IH [of ids] by (simp add: scan_file_eq)
  next
    case (Some g)
    then show ?thesis using Cons.IH [of "ids @ [g]"] by (auto simp: scan_file_eq)
  qed
qed

lemma open_bracket_mem: "k < length s \<Longrightarrow> s ! k = CHR ''['' \<Longrightarrow> CHR ''['' \<in> set s"
  by (metis nth_mem)

lemma no_bracket_no_run: "CHR ''['' \<notin> set s \<Longrightarrow> \<not> bracketed_run_at s k"
proof
  assume n: "CHR ''['' \<notin> set s" and "bracketed_run_at s k"
  then have "k < length s" "s ! k = CHR ''[''" by (auto simp: bracketed_run_at_def)
  then have "CHR ''['' \<in> set s" by (rule open_bracket_mem)
  with n show False by simp
qed

lemma no_bracket_prefix:
  "CHR ''['' \<notin> set pre \<Longrightarrow> k < length pre \<Longrightarrow> \<not> pattern_at (pre @ rest) k"
proof
  assume n: "CHR ''['' \<notin> set pre" and k: "k < length pre" and "pattern_at (pre @ rest) k"
  then have "(pre @ rest) ! k = CHR ''[''" by (simp add: pattern_at_def bracketed_run_at_def)
  with k have "pre ! k = CHR ''[''" by (simp add: nth_append)
  with k have "CHR ''['' \<in> set pre" by (rule open_bracket_mem)
  with n show False by simp
qed

lemma pattern_at_token:
  assumes "length g = 11" "newline \<notin> set g"
  shows "pattern_at (pre @ CHR ''['' # g @ CHR '']'' # post) (length pre)
       \<and> group_at (pre @ CHR ''['' # g @ CHR '']'' # post) (length pre) = g"
proof -
  have "(pre @ CHR ''['' # g @ CHR '']'' # post) ! (length pre + 12)
      = (CHR ''['' # g @ CHR '']'' # post) ! 12"
    by (rule nth_append_length_plus)
  also have "\<dots> = (g @ CHR '']'' # post) ! 11" by simp
  also have "\<dots> = CHR '']''" using assms(1) by (simp add: nth_append)
  finally have c: "(pre @ CHR ''['' # g @ CHR '']'' # post) ! (length pre + 12) = CHR '']''" .
  show ?thesis
    using assms c by (simp add: pattern_at_def bracketed_run_at_def group_at_def)
qed

section \<open>The listers, the diff and the downloader\<close>

lemma local_lister_eq:
  "get_all_video_ids_from_path w p =
     (case is_dir w p of
        Inl m \<Rightarrow> ([IsDir p], Inl (OSError m))
      | Inr b \<Rightarrow>
          (if b then ([IsDir p, Glob p], Inr (remdups (fold scan_file (glob_star w p) [])))
           else ([IsDir p], Inl (InvalidPath p))))"
  by (simp add: get_all_video_ids_from_path_def split: sum.splits)

lemma local_lister_dir:
  "is_dir w p = Inr True \<Longrightarrow>
   get_all_video_ids_from_path w p
     = ([IsDir p, Glob p], Inr (remdups (fold scan_file (glob_star w p) [])))"
  by (simp add: local_lister_eq)

lemma local_lister_set:
  "snd (get_all_video_ids_from_path w p) = Inr ids \<Longrightarrow>
   set ids = {g. \<exists>path\<in>set (glob_star w p). VIDEO_ID_PATTERN_search path = Some g}"
  by (auto simp: local_lister_eq set_fold_scan_file split: sum.splits if_splits)

lemma remote_fst: "fst (get_all_video_ids_from_channel w c) = [ExtractInfo (channel_url c)]"
  by (simp add: get_all_video_ids_from_channel_def)

lemma diff_eq:
  "get_all_video_ids_not_locally_available w c p =
     (case snd (get_all_video_ids_from_channel w c) of
        Inl e \<Rightarrow> (fst (get_all_video_ids_from_channel w c), Inl e)
      | Inr r \<Rightarrow>
          (case snd (get_all_video_ids_from_path w p) of
             Inl e \<Rightarrow> (fst (get_all_video_ids_from_channel w c)
                         @ fst (get_all_video_ids_from_path w p), Inl e)
           | Inr l \<Rightarrow> (fst (get_all_video_ids_from_channel w c)
                         @ fst (get_all_video_ids_from_path w p), Inr (difference r l))))"
  by (simp add: get_all_video_ids_not_locally_available_def split: prod.splits sum.splits)

lemma build_urls_strings: "build_urls (map PyStr ids) = Inr (map ((@) BASE_URL) ids)"
  by (induction ids) simp_all

lemma download_missing_videos_eq:
  assumes "snd (get_all_video_ids_not_locally_available w c p) = Inr (map PyStr ids)"
  shows "download_missing_videos w c p outpath dry_run =
     (fst (get_all_video_ids_not_locally_available w c p)
        @ [PrintDownloading (length ids),
           if dry_run then PrintWouldDownload (map ((@) BASE_URL) ids)
           else Download (make_ydl_opts (case outpath of None \<Rightarrow> p | Some q \<Rightarrow> q))
                  (map ((@) BASE_URL) ids)],
      if dry_run then Inr ()
      else (case download w (make_ydl_opts (case outpath of None \<Rightarrow> p | Some q \<Rightarrow> q))
                   (map ((@) BASE_URL) ids) of
              Some m \<Rightarrow> Inl (CollaboratorError m) | None \<Rightarrow> Inr ()))"
proof -
  obtain ev where "get_all_video_ids_not_locally_available w c p = (ev, Inr (map PyStr ids))"
    using assms by (cases "get_all_video_ids_not_locally_available w c p") simp
  then show ?thesis
    by (simp add: download_missing_videos_def build_urls_strings Let_def)
qed

lemma collect_ids_ok:
  "\<forall>e\<in>set es. has_id e \<Longrightarrow> collect_ids es acc = Inr (acc @ map id_of es)"
proof (induction es arbitrary: acc)
  case Nil
  then show ?case by simp
next
  case (Cons e es)
  then obtain d v where e: "e = PyDict d" "map_of d ''id'' = Some v"
    by (auto simp: has_id_def split: pyval.splits)
  then have "id_of e = v" by (simp add: id_of_def dict_get_def)
  then show ?case
    using Cons.IH [of "acc @ [v]"] Cons.prems e
    by (simp add: dict_getitem_def)
qed

lemma collect_ids_first_bad:
  "i < length es \<Longrightarrow> \<forall>j<i. has_id (es ! j) \<Longrightarrow> \<not> has_id (es ! i) \<Longrightarrow>
   collect_ids es acc = (if isinstance_dict (es ! i) then Inl (KeyError ''id'') else Inl MalformedEntry)"
proof (induction es arbitrary: i acc)
  case Nil
  then show ?case by simp
next
  case (Cons e es)
  show ?case
  proof (cases i)
    case 0
    with Cons.prems show ?thesis
      by (cases e) (auto simp: has_id_def dict_getitem_def)
  next
    case (Suc k)
    with Cons.prems have "has_id e" by auto
    then obtain d v where e: "e = PyDict d" "map_of d ''id'' = Some v"
      by (auto simp: has_id_def split: pyval.splits)
    have k: "k < length es" "\<not> has_id (es ! k)" using Cons.prems Suc by auto
    have "\<forall>j<k. has_id (es ! j)"
    proof (intro allI impI)
      fix j assume "j < k"
      then have "has_id ((e # es) ! Suc j)" using Cons.prems Suc by blast
      then show "has_id (es ! j)" by simp
    qed
    then have "collect_ids es (acc @ [v]) =
        (if isinstance_dict (es ! k) then Inl (KeyError ''id'') else Inl MalformedEntry)"
      using Cons.IH [of k "acc @ [v]"] k by blast
    with e Suc show ?thesis by (simp add: dict_getitem_def)
  qed
qed

lemma remote_distinct:
  "snd (get_all_video_ids_from_channel w c) = Inr r \<Longrightarrow> distinct r"
  by (auto simp: get_all_video_ids_from_channel_def ids_from_info_def py_set_def Let_def
      split: sum.splits pyval.splits if_splits)

lemma set_difference: "set (difference xs ys) = set xs - PyStr ` set ys"
  by (auto simp: difference_def)

lemma distinct_difference: "distinct xs \<Longrightarrow> distinct (difference xs ys)"
  by (simp add: difference_def)

lemma distinct_singleton: "distinct xs \<Longrightarrow> set xs = {x} \<Longrightarrow> xs = [x]"
proof (cases xs)
  case Nil
  assume "set xs = {x}" with Nil show ?thesis by simp
next
  case (Cons a ys)
  assume d: "distinct xs" and s: "set xs = {x}"
  from s Cons have a: "a = x" by auto
  from d Cons a have n: "x \<notin> set ys" by simp
  from s Cons have sub: "set ys \<subseteq> {x}" by auto
  have "ys = []"
  proof (rule ccontr)
    assume "ys \<noteq> []"
    then obtain b where b: "b \<in> set ys" by (cases ys) auto
    with sub have "b = x" by auto
    with b n show False by simp
  qed
  with Cons a show ?thesis by simp
qed

text \<open>A concrete run: the channel lists two videos, the directory holds one of them.\<close>

lemma example_remote:
  "get_all_video_ids_from_channel
     (test_world (listing [PyStr ''aaaaaaaaaaa'', PyStr ''bbbbbbbbbbb''])
        ''videos'' [''videos/Clip [aaaaaaaaaaa].mp4'', ''videos/notes.txt'']) ''@chan''
   = ([ExtractInfo ''https://www.youtube.com/@chan/videos''],
      Inr [PyStr ''aaaaaaaaaaa'', PyStr ''bbbbbbbbbbb''])"
  by (simp add: get_all_video_ids_from_channel_def test_world_def listing_def channel_url_def
      ids_from_info_def dict_get_def dict_getitem_def py_set_def)

lemma example_local:
  "get_all_video_ids_from_path
     (test_world info ''videos'' [''videos/Clip [aaaaaaaaaaa].mp4'', ''videos/notes.txt''])
     ''videos''
   = ([IsDir ''videos'', Glob ''videos''], Inr [''aaaaaaaaaaa''])"
  by (simp add: get_all_video_ids_from_path_def test_world_def scan_file_def newline_def)

section \<open>The failures of the remote lister\<close>

lemma first_without_id:
  assumes "\<not> (\<forall>e\<in>set es. has_id e)"
  shows "\<exists>i<length es. \<not> has_id (es ! i) \<and> (\<forall>j<i. has_id (es ! j))"
proof -
  from assms obtain n where n: "n < length es \<and> \<not> has_id (es ! n)"
    by (auto simp: in_set_conv_nth)
  define i where "i = (LEAST i. i < length es \<and> \<not> has_id (es ! i))"
  have i: "i < length es \<and> \<not> has_id (es ! i)"
    unfolding i_def using n by (rule LeastI)
  have "\<forall>j<i. has_id (es ! j)"
  proof (intro allI impI)
    fix j assume j: "j < i"
    then have "\<not> (j < length es \<and> \<not> has_id (es ! j))"
      unfolding i_def by (rule not_less_Least)
    moreover from j i have "j < length es" by simp
    ultimately show "has_id (es ! j)" by simp
  qed
  with i show ?thesis by blast
qed

lemma not_dict_no_id: "\<not> isinstance_dict e \<Longrightarrow> \<not> has_id e"
  by (cases e) (simp_all add: has_id_def)

lemma lacks_id_iff: "lacks_id e \<longleftrightarrow> isinstance_dict e \<and> \<not> has_id e"
  by (cases e) (simp_all add: has_id_def lacks_id_def)

lemma collect_ids_MalformedEntry_iff:
  "collect_ids es acc = Inl MalformedEntry \<longleftrightarrow>
   (\<exists>i<length es. \<not> isinstance_dict (es ! i) \<and> (\<forall>j<i. has_id (es ! j)))"
proof
  assume m: "collect_ids es acc = Inl MalformedEntry"
  have "\<not> (\<forall>e\<in>set es. has_id e)"
  proof
    assume "\<forall>e\<in>set es. has_id e"
    then have "collect_ids es acc = Inr (acc @ map id_of es)" by (rule collect_ids_ok)
    with m show False by simp
  qed
  then obtain i where i: "i < length es" "\<not> has_id (es ! i)" "\<forall>j<i. has_id (es ! j)"
    using first_without_id by blast
  then have "collect_ids es acc =
      (if isinstance_dict (es ! i) then Inl (KeyError ''id'') else Inl MalformedEntry)"
    using collect_ids_first_bad [of i es acc] by blast
  with m have "\<not> isinstance_dict (es ! i)" by (auto split: if_splits)
  with i show "\<exists>i<length es. \<not> isinstance_dict (es ! i) \<and> (\<forall>j<i. has_id (es ! j))" by blast
next
  assume "\<exists>i<length es. \<not> isinstance_dict (es ! i) \<and> (\<forall>j<i. has_id (es ! j))"
  then obtain i where i: "i < length es" "\<not> isinstance_dict (es ! i)" "\<forall>j<i. has_id (es ! j)"
    by blast
  then have "\<not> has_id (es ! i)" by (simp add: not_dict_no_id)
  with i show "collect_ids es acc = Inl MalformedEntry"
    using collect_ids_first_bad [of i es acc] by simp
qed

lemma collect_ids_KeyError_iff:
  "collect_ids es acc = Inl (KeyError ''id'') \<longleftrightarrow>
   (\<exists>i<length es. lacks_id (es ! i) \<and> (\<forall>j<i. has_id (es ! j)))"
proof
  assume m: "collect_ids es acc = Inl (KeyError ''id'')"
  have "\<not> (\<forall>e\<in>set es. has_id e)"
  proof
    assume "\<forall>e\<in>set es. has_id e"
    then have "collect_ids es acc = Inr (acc @ map id_of es)" by (rule collect_ids_ok)
    with m show False by simp
  qed
  then obtain i where i: "i < length es" "\<not> has_id (es ! i)" "\<forall>j<i. has_id (es ! j)"
    using first_without_id by blast
  then have "collect_ids es acc =
      (if isinstance_dict (es ! i) then Inl (KeyError ''id'') else Inl MalformedEntry)"
    using collect_ids_first_bad [of i es acc] by blast
  with m have "isinstance_dict (es ! i)" by (auto split: if_splits)
  with i show "\<exists>i<length es. lacks_id (es ! i) \<and> (\<forall>j<i. has_id (es ! j))"
    using lacks_id_iff by blast
next
  assume "\<exists>i<length es. lacks_id (es ! i) \<and> (\<forall>j<i. has_id (es ! j))"
  then obtain i where i: "i < length es" "lacks_id (es ! i)" "\<forall>j<i. has_id (es ! j)"
    by blast
  then have "\<not> has_id (es ! i)" "isinstance_dict (es ! i)" by (simp_all add: lacks_id_iff)
  with i show "collect_ids es acc = Inl (KeyError ''id'')"
    using collect_ids_first_bad [of i es acc] by simp
qed

lemma py_set_error: "py_set ids = Inl e \<Longrightarrow> e = TypeError"
  by (auto simp: py_set_def split: if_splits)

lemma ids_from_info_not_dict:
  "\<not> isinstance_dict info \<Longrightarrow> ids_from_info c info = Inl InvalidResponse"
  by (cases info) (simp_all add: ids_from_info_def)

lemma ids_from_info_no_entries:
  "\<not> (\<exists>es. map_of d ''entries'' = Some (PyList es) \<and> es \<noteq> []) \<Longrightarrow>
   ids_from_info c (PyDict d) = Inl (EmptyResult c)"
proof (cases "map_of d ''entries''")
  case None
  then show ?thesis by (simp add: ids_from_info_def dict_get_def)
next
  case (Some v)
  assume "\<not> (\<exists>es. map_of d ''entries'' = Some (PyList es) \<and> es \<noteq> [])"
  with Some have "\<not> truthy v \<or> \<not> isinstance_list v" by (cases v) auto
  with Some show ?thesis by (auto simp: ids_from_info_def dict_get_def)
qed

lemma ids_from_info_entries:
  "map_of d ''entries'' = Some (PyList es) \<Longrightarrow> es \<noteq> [] \<Longrightarrow>
   ids_from_info c (PyDict d) =
     (case collect_ids es [] of Inl e \<Rightarrow> Inl e | Inr ids \<Rightarrow> py_set ids)"
  by (simp add: ids_from_info_def dict_get_def)

lemma remote_snd:
  "extract_info w (channel_url c) = Inr info \<Longrightarrow>
   snd (get_all_video_ids_from_channel w c) = ids_from_info c info"
  by (simp add: get_all_video_ids_from_channel_def)

lemma ids_from_info_InvalidResponse_iff:
  "ids_from_info c info = Inl InvalidResponse \<longleftrightarrow> \<not> isinstance_dict info"
proof (cases info)
  case (PyDict d)
  show ?thesis
  proof (cases "\<exists>es. map_of d ''entries'' = Some (PyList es) \<and> es \<noteq> []")
    case False
    then show ?thesis using PyDict by (simp add: ids_from_info_no_entries)
  next
    case True
    then obtain es where es: "map_of d ''entries'' = Some (PyList es)" "es \<noteq> []" by blast
    have "collect_ids es [] \<noteq> Inl InvalidResponse"
    proof (cases "\<forall>e\<in>set es. has_id e")
      case True
      then show ?thesis by (simp add: collect_ids_ok)
    next
      case False
      then obtain i where "i < length es" "\<not> has_id (es ! i)" "\<forall>j<i. has_id (es ! j)"
        using first_without_id by blast
      then show ?thesis using collect_ids_first_bad [of i es "[]"] by simp
    qed
    then show ?thesis
      using PyDict es py_set_error
      by (auto simp: ids_from_info_entries split: sum.splits)
  qed
qed (simp_all add: ids_from_info_def)

lemma collect_ids_not_EmptyResult: "collect_ids es acc \<noteq> Inl (EmptyResult x)"
proof (cases "\<forall>e\<in>set es. has_id e")
  case True
  then show ?thesis by (simp add: collect_ids_ok)
next
  case False
  then obtain i where "i < length es" "\<not> has_id (es ! i)" "\<forall>j<i. has_id (es ! j)"
    using first_without_id by blast
  then show ?thesis using collect_ids_first_bad [of i es acc] by simp
qed

lemma ids_from_info_EmptyResult_iff:
  "(\<exists>x. ids_from_info c info = Inl (EmptyResult x)) \<longleftrightarrow>
   (\<exists>d. info = PyDict d \<and> \<not> (\<exists>es. map_of d ''entries'' = Some (PyList es) \<and> es \<noteq> []))"
proof (cases info)
  case (PyDict d)
  show ?thesis
  proof (cases "\<exists>es. map_of d ''entries'' = Some (PyList es) \<and> es \<noteq> []")
    case False
    then show ?thesis using PyDict by (simp add: ids_from_info_no_entries)
  next
    case True
    then obtain es where es: "map_of d ''entries'' = Some (PyList es)" "es \<noteq> []" by blast
    have "ids_from_info c (PyDict d) \<noteq> Inl (EmptyResult x)" for x
      using es py_set_error collect_ids_not_EmptyResult [of es "[]" x]
      by (auto simp: ids_from_info_entries split: sum.splits)
    then show ?thesis using PyDict True by simp
  qed
qed (simp_all add: ids_from_info_def)

lemma ids_from_info_MalformedEntry_iff:
  "ids_from_info c info = Inl MalformedEntry \<longleftrightarrow>
   (\<exists>d es i. info = PyDict d \<and> map_of d ''entries'' = Some (PyList es) \<and> i < length es
       \<and> \<not> isinstance_dict (es ! i) \<and> (\<forall>j<i. has_id (es ! j)))"
proof (cases info)
  case (PyDict d)
  show ?thesis
  proof (cases "\<exists>es. map_of d ''entries'' = Some (PyList es) \<and> es \<noteq> []")
    case False
    then have "ids_from_info c info \<noteq> Inl MalformedEntry"
      using PyDict by (simp add: ids_from_info_no_entries)
    moreover have "\<not> (\<exists>d es i. info = PyDict d \<and> map_of d ''entries'' = Some (PyList es)
        \<and> i < length es \<and> \<not> isinstance_dict (es ! i) \<and> (\<forall>j<i. has_id (es ! j)))"
      using False PyDict by auto
    ultimately show ?thesis by blast
  next
    case True
    then obtain es where es: "map_of d ''entries'' = Some (PyList es)" "es \<noteq> []" by blast
    have "ids_from_info c info = Inl MalformedEntry \<longleftrightarrow> collect_ids es [] = Inl MalformedEntry"
      using PyDict es py_set_error
      by (auto simp: ids_from_info_entries split: sum.splits)
    then show ?thesis
      using PyDict es by (auto simp: collect_ids_MalformedEntry_iff)
  qed
qed (simp_all add: ids_from_info_def)

section \<open>The properties\<close>

text \<open>
  C1. Whenever the diff computer returns a set for a channel \<open>C\<close> and a directory \<open>D\<close>, both
  listers have returned one, and the diff is a subset of the remote lister's set on \<open>C\<close> and
  disjoint from the local lister's set on \<open>D\<close>.
\<close>

theorem diff_subset_remote_disjoint_local:
  assumes "snd (get_all_video_ids_not_locally_available w C D) = Inr d"
  shows "\<exists>r l. snd (get_all_video_ids_from_channel w C) = Inr r
             \<and> snd (get_all_video_ids_from_path w D) = Inr l
             \<and> set d \<subseteq> set r \<and> set d \<inter> PyStr ` set l = {}"
  using assms
  by (auto simp: diff_eq set_difference split: sum.splits)

theorem diff_subset_remote_disjoint_local_witness:
  "snd (get_all_video_ids_not_locally_available
     (test_world (listing [PyStr ''aaaaaaaaaaa'', PyStr ''bbbbbbbbbbb''])
        ''videos'' [''videos/Clip [aaaaaaaaaaa].mp4'', ''videos/notes.txt''])
     ''@chan'' ''videos'') = Inr [PyStr ''bbbbbbbbbbb'']
   \<and> set [PyStr ''bbbbbbbbbbb''] \<subseteq> set [PyStr ''aaaaaaaaaaa'', PyStr ''bbbbbbbbbbb'']
   \<and> set [PyStr ''bbbbbbbbbbb''] \<inter> PyStr ` set [''aaaaaaaaaaa''] = {}"
proof -
  let ?w = "test_world (listing [PyStr ''aaaaaaaaaaa'', PyStr ''bbbbbbbbbbb''])
        ''videos'' [''videos/Clip [aaaaaaaaaaa].mp4'', ''videos/notes.txt'']"
  have h: "snd (get_all_video_ids_not_locally_available ?w ''@chan'' ''videos'')
      = Inr [PyStr ''bbbbbbbbbbb'']"
    by (simp add: diff_eq example_remote example_local difference_def)
  show ?thesis
    using diff_subset_remote_disjoint_local [OF h] h
    by (simp add: example_remote example_local)
qed

lemma example_diff:
  "get_all_video_ids_not_locally_available
     (test_world (listing [PyStr ''aaaaaaaaaaa'', PyStr ''bbbbbbbbbbb''])
        ''videos'' [''videos/Clip [aaaaaaaaaaa].mp4'', ''videos/notes.txt''])
     ''@chan'' ''videos''
   = ([ExtractInfo ''https://www.youtube.com/@chan/videos'', IsDir ''videos'', Glob ''videos''],
      Inr [PyStr ''bbbbbbbbbbb''])"
  by (simp add: diff_eq example_remote example_local difference_def)

lemma diff_distinct:
  "snd (get_all_video_ids_not_locally_available w C D) = Inr d \<Longrightarrow> distinct d"
  by (auto simp: diff_eq split: sum.splits intro: distinct_difference remote_distinct)

text \<open>
  C2. If the remote lister returns the set of the two identifiers \<^verbatim>\<open>aaaaaaaaaaa\<close> and
  \<^verbatim>\<open>bbbbbbbbbbb\<close> and the local lister returns the set of \<^verbatim>\<open>aaaaaaaaaaa\<close> alone, the diff is the
  set of \<^verbatim>\<open>bbbbbbbbbbb\<close> alone, and the URLs the downloader builds (printed in a dry run, handed
  to the download collaborator otherwise) are the one URL
  \<^verbatim>\<open>https://www.youtube.com/watch?v=bbbbbbbbbbb\<close>.
\<close>

theorem two_remote_one_local:
  assumes "snd (get_all_video_ids_from_channel w C) = Inr r"
    and "set r = {PyStr ''aaaaaaaaaaa'', PyStr ''bbbbbbbbbbb''}"
    and "snd (get_all_video_ids_from_path w D) = Inr l"
    and "set l = {''aaaaaaaaaaa''}"
  shows "snd (get_all_video_ids_not_locally_available w C D) = Inr [PyStr ''bbbbbbbbbbb'']
       \<and> fst (download_missing_videos w C D outpath True)
           = fst (get_all_video_ids_not_locally_available w C D)
             @ [PrintDownloading 1,
                PrintWouldDownload [''https://www.youtube.com/watch?v=bbbbbbbbbbb'']]
       \<and> fst (download_missing_videos w C D outpath False)
           = fst (get_all_video_ids_not_locally_available w C D)
             @ [PrintDownloading 1,
                Download (make_ydl_opts (case outpath of None \<Rightarrow> D | Some p \<Rightarrow> p))
                  [''https://www.youtube.com/watch?v=bbbbbbbbbbb'']]"
proof -
  have "distinct r" using assms(1) by (rule remote_distinct)
  then have "distinct (difference r l)" by (rule distinct_difference)
  moreover have "set (difference r l) = {PyStr ''bbbbbbbbbbb''}"
    using assms(2,4) by (auto simp: set_difference)
  ultimately have "difference r l = [PyStr ''bbbbbbbbbbb'']" by (rule distinct_singleton)
  then have d: "snd (get_all_video_ids_not_locally_available w C D)
      = Inr (map PyStr [''bbbbbbbbbbb''])"
    using assms(1,3) by (simp add: diff_eq)
  show ?thesis
    using d download_missing_videos_eq [OF d] by (simp add: BASE_URL_def)
qed

theorem two_remote_one_local_witness:
  "snd (get_all_video_ids_not_locally_available
     (test_world (listing [PyStr ''aaaaaaaaaaa'', PyStr ''bbbbbbbbbbb''])
        ''videos'' [''videos/Clip [aaaaaaaaaaa].mp4'', ''videos/notes.txt''])
     ''@chan'' ''videos'') = Inr [PyStr ''bbbbbbbbbbb'']
   \<and> fst (download_missing_videos
     (test_world (listing [PyStr ''aaaaaaaaaaa'', PyStr ''bbbbbbbbbbb''])
        ''videos'' [''videos/Clip [aaaaaaaaaaa].mp4'', ''videos/notes.txt''])
     ''@chan'' ''videos'' None True)
     = [ExtractInfo ''https://www.youtube.com/@chan/videos'', IsDir ''videos'', Glob ''videos'',
        PrintDownloading 1,
        PrintWouldDownload [''https://www.youtube.com/watch?v=bbbbbbbbbbb'']]
   \<and> fst (download_missing_videos
     (test_world (listing [PyStr ''aaaaaaaaaaa'', PyStr ''bbbbbbbbbbb''])
        ''videos'' [''videos/Clip [aaaaaaaaaaa].mp4'', ''videos/notes.txt''])
     ''@chan'' ''videos'' None False)
     = [ExtractInfo ''https://www.youtube.com/@chan/videos'', IsDir ''videos'', Glob ''videos'',
        PrintDownloading 1,
        Download (make_ydl_opts ''videos'') [''https://www.youtube.com/watch?v=bbbbbbbbbbb'']]"
proof -
  let ?w = "test_world (listing [PyStr ''aaaaaaaaaaa'', PyStr ''bbbbbbbbbbb''])
        ''videos'' [''videos/Clip [aaaaaaaaaaa].mp4'', ''videos/notes.txt'']"
  have h1: "snd (get_all_video_ids_from_channel ?w ''@chan'')
      = Inr [PyStr ''aaaaaaaaaaa'', PyStr ''bbbbbbbbbbb'']"
    by (simp add: example_remote)
  have h2: "set [PyStr ''aaaaaaaaaaa'', PyStr ''bbbbbbbbbbb'']
      = {PyStr ''aaaaaaaaaaa'', PyStr ''bbbbbbbbbbb''}" by simp
  have h3: "snd (get_all_video_ids_from_path ?w ''videos'') = Inr [''aaaaaaaaaaa'']"
    by (simp add: example_local)
  have h4: "set [''aaaaaaaaaaa''] = {''aaaaaaaaaaa''}" by simp
  show ?thesis
    using two_remote_one_local [OF h1 h2 h3 h4, of None]
    by (simp add: example_diff)
qed

text \<open>
  C5. The claim as stated fails in its frame: a dry run does initiate a network fetch, since
  the downloader runs the diff step, and with it the remote listing query, before it looks
  at the dry-run flag.
\<close>

theorem dry_run_queries_the_channel_counterexample:
  "fst (download_missing_videos
     (test_world (listing [PyStr ''aaaaaaaaaaa'', PyStr ''bbbbbbbbbbb''])
        ''videos'' [''videos/Clip [aaaaaaaaaaa].mp4'', ''videos/notes.txt''])
     ''@chan'' ''videos'' None True)
     = [ExtractInfo ''https://www.youtube.com/@chan/videos'', IsDir ''videos'', Glob ''videos'',
        PrintDownloading 1,
        PrintWouldDownload [''https://www.youtube.com/watch?v=bbbbbbbbbbb'']]
   \<and> is_network_fetch (ExtractInfo ''https://www.youtube.com/@chan/videos'')"
proof -
  have h: "snd (get_all_video_ids_not_locally_available
     (test_world (listing [PyStr ''aaaaaaaaaaa'', PyStr ''bbbbbbbbbbb''])
        ''videos'' [''videos/Clip [aaaaaaaaaaa].mp4'', ''videos/notes.txt''])
     ''@chan'' ''videos'') = Inr (map PyStr [''bbbbbbbbbbb''])"
    by (simp add: example_diff)
  show ?thesis
    using download_missing_videos_eq [OF h, of None True]
    by (simp add: example_diff BASE_URL_def is_network_fetch_def)
qed

text \<open>
  C5, amended. When the missing identifiers are the strings \<open>ids\<close> (a set: their number is
  the length of the list), the first thing the downloader does after the diff step is to
  report their count, in both modes. In a dry run it then reports the list of all candidate
  URLs and returns; no call to the download collaborator appears among its events, and no
  event after those of the diff step is a network fetch. The diff step itself queries the
  remote listing in a dry run as in a real one.
\<close>

theorem count_reported_and_dry_run_downloads_nothing:
  assumes "snd (get_all_video_ids_not_locally_available w C D) = Inr (map PyStr ids)"
  shows "length ids = card (set ids)
       \<and> (\<exists>rest. fst (download_missing_videos w C D outpath dry_run)
            = fst (get_all_video_ids_not_locally_available w C D)
              @ PrintDownloading (length ids) # rest)
       \<and> (dry_run \<longrightarrow>
            download_missing_videos w C D outpath dry_run
              = (fst (get_all_video_ids_not_locally_available w C D)
                   @ [PrintDownloading (length ids),
                      PrintWouldDownload (map ((@) BASE_URL) ids)], Inr ())
          \<and> (\<forall>e\<in>set (fst (download_missing_videos w C D outpath dry_run)). \<not> is_Download e)
          \<and> (\<forall>e\<in>set (drop (length (fst (get_all_video_ids_not_locally_available w C D)))
                         (fst (download_missing_videos w C D outpath dry_run))).
                \<not> is_network_fetch e))"
proof -
  have "distinct (map PyStr ids)" using assms by (rule diff_distinct)
  then have "distinct ids" by (simp add: distinct_map)
  then have c: "length ids = card (set ids)" by (simp add: distinct_card)
  have nd: "\<forall>e\<in>set (fst (get_all_video_ids_not_locally_available w C D)). \<not> is_Download e"
    by (auto simp: diff_eq remote_fst local_lister_eq get_all_video_ids_from_channel_def
        is_Download_def split: sum.splits if_splits)
  show ?thesis
    using nd c
    by (auto simp: download_missing_videos_eq [OF assms] is_Download_def is_network_fetch_def)
qed

theorem count_reported_and_dry_run_downloads_nothing_witness:
  "download_missing_videos
     (test_world (listing [PyStr ''aaaaaaaaaaa'', PyStr ''bbbbbbbbbbb''])
        ''videos'' [''videos/Clip [aaaaaaaaaaa].mp4'', ''videos/notes.txt''])
     ''@chan'' ''videos'' None True
     = ([ExtractInfo ''https://www.youtube.com/@chan/videos'', IsDir ''videos'', Glob ''videos'',
        PrintDownloading 1,
        PrintWouldDownload [''https://www.youtube.com/watch?v=bbbbbbbbbbb'']], Inr ())"
proof -
  let ?w = "test_world (listing [PyStr ''aaaaaaaaaaa'', PyStr ''bbbbbbbbbbb''])
        ''videos'' [''videos/Clip [aaaaaaaaaaa].mp4'', ''videos/notes.txt'']"
  have h: "snd (get_all_video_ids_not_locally_available ?w ''@chan'' ''videos'')
      = Inr (map PyStr [''bbbbbbbbbbb''])"
    by (simp add: example_diff)
  show ?thesis
    using count_reported_and_dry_run_downloads_nothing [OF h, of None True]
    by (simp add: example_diff BASE_URL_def)
qed

text \<open>
  C7. When no output directory is given, every call to the download collaborator is
  configured with the local directory as its home path; and in a real run over a set of
  string identifiers that call is made.
\<close>

theorem default_outpath_is_localpath:
  "(\<forall>opts urls. Download opts urls \<in> set (fst (download_missing_videos w C D None dry_run))
       \<longrightarrow> paths_home opts = D)
   \<and> (snd (get_all_video_ids_not_locally_available w C D) = Inr (map PyStr ids) \<and> \<not> dry_run
       \<longrightarrow> Download (make_ydl_opts D) (map ((@) BASE_URL) ids)
             \<in> set (fst (download_missing_videos w C D None dry_run))
           \<and> paths_home (make_ydl_opts D) = D)"
proof -
  have nd: "\<And>opts urls. Download opts urls
      \<notin> set (fst (get_all_video_ids_not_locally_available w C D))"
    by (auto simp: diff_eq remote_fst local_lister_eq get_all_video_ids_from_channel_def
        split: sum.splits if_splits)
  have a: "\<forall>opts urls. Download opts urls \<in> set (fst (download_missing_videos w C D None dry_run))
       \<longrightarrow> paths_home opts = D"
    using nd
    by (auto simp: download_missing_videos_def Let_def make_ydl_opts_def
        split: prod.splits sum.splits if_splits)
  have b: "snd (get_all_video_ids_not_locally_available w C D) = Inr (map PyStr ids) \<and> \<not> dry_run
       \<longrightarrow> Download (make_ydl_opts D) (map ((@) BASE_URL) ids)
             \<in> set (fst (download_missing_videos w C D None dry_run))
           \<and> paths_home (make_ydl_opts D) = D"
    by (auto simp: download_missing_videos_eq make_ydl_opts_def)
  from a b show ?thesis by blast
qed

theorem default_outpath_is_localpath_witness:
  "Download (make_ydl_opts ''videos'') [''https://www.youtube.com/watch?v=bbbbbbbbbbb'']
     \<in> set (fst (download_missing_videos
     (test_world (listing [PyStr ''aaaaaaaaaaa'', PyStr ''bbbbbbbbbbb''])
        ''videos'' [''videos/Clip [aaaaaaaaaaa].mp4'', ''videos/notes.txt''])
     ''@chan'' ''videos'' None False))
   \<and> paths_home (make_ydl_opts ''videos'') = ''videos''"
proof -
  let ?w = "test_world (listing [PyStr ''aaaaaaaaaaa'', PyStr ''bbbbbbbbbbb''])
        ''videos'' [''videos/Clip [aaaaaaaaaaa].mp4'', ''videos/notes.txt'']"
  have h: "snd (get_all_video_ids_not_locally_available ?w ''@chan'' ''videos'')
      = Inr (map PyStr [''bbbbbbbbbbb'']) \<and> \<not> False"
    by (simp add: example_diff)
  show ?thesis
    using default_outpath_is_localpath [of ?w "''@chan''" "''videos''" False "[''bbbbbbbbbbb'']"] h
    by (simp add: BASE_URL_def)
qed

text \<open>
  C8. A failure of the remote lister is the failure of the diff computer, whatever the local
  lister would do, and then the only event is the remote query: the local path has not been
  looked at. A failure of the local lister after a successful remote query is the failure of
  the diff computer. The remote query is the first event in every case, and the events of
  the local lister follow it only when the remote lister has returned.
\<close>

theorem lister_failures_propagate_remote_first:
  "(snd (get_all_video_ids_from_channel w C) = Inl e \<longrightarrow>
      get_all_video_ids_not_locally_available w C D = ([ExtractInfo (channel_url C)], Inl e))
   \<and> (snd (get_all_video_ids_from_channel w C) = Inr r
        \<and> snd (get_all_video_ids_from_path w D) = Inl e \<longrightarrow>
      get_all_video_ids_not_locally_available w C D
        = (ExtractInfo (channel_url C) # fst (get_all_video_ids_from_path w D), Inl e))
   \<and> fst (get_all_video_ids_not_locally_available w C D)
       = ExtractInfo (channel_url C)
         # (case snd (get_all_video_ids_from_channel w C) of
              Inl e' \<Rightarrow> []
            | Inr r' \<Rightarrow> fst (get_all_video_ids_from_path w D))"
  by (auto simp: diff_eq remote_fst split: sum.splits)

lemma failing_remote:
  "get_all_video_ids_from_channel (test_world PyNone ''videos'' []) ''@chan''
     = ([ExtractInfo ''https://www.youtube.com/@chan/videos''], Inl InvalidResponse)"
  by (simp add: get_all_video_ids_from_channel_def test_world_def channel_url_def
      ids_from_info_def)

lemma failing_local:
  "get_all_video_ids_from_path (test_world info ''videos'' []) ''nowhere''
     = ([IsDir ''nowhere''], Inl (InvalidPath ''nowhere''))"
  by (simp add: get_all_video_ids_from_path_def test_world_def)

theorem lister_failures_propagate_remote_first_witness:
  "snd (get_all_video_ids_from_channel (test_world PyNone ''videos'' []) ''@chan'')
     = Inl InvalidResponse
   \<and> snd (get_all_video_ids_from_path (test_world PyNone ''videos'' []) ''nowhere'')
     = Inl (InvalidPath ''nowhere'')
   \<and> get_all_video_ids_not_locally_available (test_world PyNone ''videos'' []) ''@chan'' ''nowhere''
     = ([ExtractInfo ''https://www.youtube.com/@chan/videos''], Inl InvalidResponse)
   \<and> get_all_video_ids_not_locally_available
       (test_world (listing [PyStr ''aaaaaaaaaaa'']) ''videos'' []) ''@chan'' ''nowhere''
     = ([ExtractInfo ''https://www.youtube.com/@chan/videos'', IsDir ''nowhere''],
        Inl (InvalidPath ''nowhere''))"
proof -
  have r: "snd (get_all_video_ids_from_channel (test_world PyNone ''videos'' []) ''@chan'')
      = Inl InvalidResponse"
    by (simp add: failing_remote)
  have r2: "snd (get_all_video_ids_from_channel
        (test_world (listing [PyStr ''aaaaaaaaaaa'']) ''videos'' []) ''@chan'')
      = Inr [PyStr ''aaaaaaaaaaa'']"
    by (simp add: get_all_video_ids_from_channel_def test_world_def listing_def
        ids_from_info_def dict_get_def dict_getitem_def py_set_def)
  have l: "snd (get_all_video_ids_from_path
        (test_world (listing [PyStr ''aaaaaaaaaaa'']) ''videos'' []) ''nowhere'')
      = Inl (InvalidPath ''nowhere'')"
    by (simp add: failing_local)
  show ?thesis
    using lister_failures_propagate_remote_first
        [of "test_world PyNone ''videos'' []" "''@chan''" InvalidResponse "''nowhere''"] r
      lister_failures_propagate_remote_first
        [of "test_world (listing [PyStr ''aaaaaaaaaaa'']) ''videos'' []" "''@chan''"
          "InvalidPath ''nowhere''" "''nowhere''" "[PyStr ''aaaaaaaaaaa'']"] r2 l
    by (simp add: failing_local channel_url_def)
qed

text \<open>
  C9. Every identifier the local lister returns has length 11. A group captured by the
  search has length 11, so it is never empty, and the loop body is the one without the test
  for an empty group: the branch that skips an empty group is never taken.
\<close>

theorem local_ids_have_length_11:
  "(\<forall>ids. snd (get_all_video_ids_from_path w D) = Inr ids \<longrightarrow> (\<forall>v\<in>set ids. length v = 11))
   \<and> (\<forall>g. VIDEO_ID_PATTERN_search path = Some g \<longrightarrow> length g = 11 \<and> g \<noteq> [])
   \<and> scan_file path acc
       = (case VIDEO_ID_PATTERN_search path of None \<Rightarrow> acc | Some g \<Rightarrow> acc @ [g])"
proof -
  have a: "\<forall>ids. snd (get_all_video_ids_from_path w D) = Inr ids
      \<longrightarrow> (\<forall>v\<in>set ids. length v = 11)"
    by (auto simp: local_lister_set search_length)
  have b: "\<forall>g. VIDEO_ID_PATTERN_search path = Some g \<longrightarrow> length g = 11 \<and> g \<noteq> []"
    using search_length by fastforce
  from a b scan_file_eq show ?thesis by blast
qed

theorem local_ids_have_length_11_witness:
  "snd (get_all_video_ids_from_path
     (test_world PyNone ''videos'' [''videos/Clip [aaaaaaaaaaa].mp4'', ''videos/notes.txt''])
     ''videos'') = Inr [''aaaaaaaaaaa'']
   \<and> length ''aaaaaaaaaaa'' = 11
   \<and> VIDEO_ID_PATTERN_search ''videos/Clip [aaaaaaaaaaa].mp4'' = Some ''aaaaaaaaaaa''"
proof -
  have h: "snd (get_all_video_ids_from_path
     (test_world PyNone ''videos'' [''videos/Clip [aaaaaaaaaaa].mp4'', ''videos/notes.txt''])
     ''videos'') = Inr [''aaaaaaaaaaa'']"
    by (simp add: example_local)
  have s: "VIDEO_ID_PATTERN_search ''videos/Clip [aaaaaaaaaaa].mp4'' = Some ''aaaaaaaaaaa''"
    by (simp add: newline_def)
  show ?thesis
    using local_ids_have_length_11
      [of "test_world PyNone ''videos'' [''videos/Clip [aaaaaaaaaaa].mp4'', ''videos/notes.txt'']"
          "''videos''" "''videos/Clip [aaaaaaaaaaa].mp4''"] h s
    by simp
qed

text \<open>
  C6. The claim as stated fails when a bracketed run holds a newline: in the path text
  below the leftmost bracketed run of eleven characters starts at index 1 and has a newline
  in its middle, which the pattern does not match, so the lister takes the run at index 15.
\<close>

theorem newline_in_first_run_counterexample:
  "\<not> bracketed_run_at (''a[aaaaa'' @ [newline] @ ''aaaaa] [bbbbbbbbbbb].mp4'') 0
   \<and> bracketed_run_at (''a[aaaaa'' @ [newline] @ ''aaaaa] [bbbbbbbbbbb].mp4'') 1
   \<and> bracketed_run_at (''a[aaaaa'' @ [newline] @ ''aaaaa] [bbbbbbbbbbb].mp4'') 15
   \<and> group_at (''a[aaaaa'' @ [newline] @ ''aaaaa] [bbbbbbbbbbb].mp4'') 1
       = ''aaaaa'' @ [newline] @ ''aaaaa''
   \<and> VIDEO_ID_PATTERN_search (''a[aaaaa'' @ [newline] @ ''aaaaa] [bbbbbbbbbbb].mp4'')
       = Some ''bbbbbbbbbbb''
   \<and> get_all_video_ids_from_path
         (test_world PyNone ''.'' [''a[aaaaa'' @ [newline] @ ''aaaaa] [bbbbbbbbbbb].mp4'']) ''.''
       = ([IsDir ''.'', Glob ''.''], Inr [''bbbbbbbbbbb''])"
  by (simp add: bracketed_run_at_def group_at_def newline_def get_all_video_ids_from_path_def
      test_world_def scan_file_def)

text \<open>
  C6, amended. When an entry's path text contains more than one bracketed run of exactly
  eleven characters other than a newline, that is, when the pattern matches at two positions,
  and \<open>i\<close> is the leftmost of all matching positions, the search returns the group at \<open>i\<close>;
  the entry adds that one identifier and no other, so a directory holding this entry alone
  yields exactly that identifier.
\<close>

theorem first_match_is_used:
  assumes "pattern_at path i" and "pattern_at path j" and "i < j"
    and "\<forall>k<i. \<not> pattern_at path k"
  shows "VIDEO_ID_PATTERN_search path = Some (group_at path i)
       \<and> scan_file path acc = acc @ [group_at path i]
       \<and> (is_dir w D = Inr True \<and> path \<in> set (glob_star w D) \<longrightarrow>
            (\<exists>ids. snd (get_all_video_ids_from_path w D) = Inr ids \<and> group_at path i \<in> set ids))
       \<and> (is_dir w D = Inr True \<and> glob_star w D = [path] \<longrightarrow>
            snd (get_all_video_ids_from_path w D) = Inr [group_at path i])"
proof -
  have s: "VIDEO_ID_PATTERN_search path = Some (group_at path i)"
    using assms(1,4) by (rule search_first)
  then have f: "scan_file path acc = acc @ [group_at path i]" for acc
    by (simp add: scan_file_eq)
  have m: "is_dir w D = Inr True \<and> path \<in> set (glob_star w D) \<longrightarrow>
      (\<exists>ids. snd (get_all_video_ids_from_path w D) = Inr ids \<and> group_at path i \<in> set ids)"
    using s by (auto simp: local_lister_dir set_fold_scan_file)
  have o: "is_dir w D = Inr True \<and> glob_star w D = [path] \<longrightarrow>
      snd (get_all_video_ids_from_path w D) = Inr [group_at path i]"
    using f [of "[]"] by (simp add: local_lister_dir)
  from s f m o show ?thesis by blast
qed

lemma two_tokens_0: "pattern_at ''[aaaaaaaaaaa] [bbbbbbbbbbb].mp4'' 0"
  by (simp add: pattern_at_def bracketed_run_at_def group_at_def newline_def)

lemma two_tokens_14: "pattern_at ''[aaaaaaaaaaa] [bbbbbbbbbbb].mp4'' 14"
  by (simp add: pattern_at_def bracketed_run_at_def group_at_def newline_def)

theorem first_match_is_used_witness:
  "pattern_at ''[aaaaaaaaaaa] [bbbbbbbbbbb].mp4'' 0
   \<and> pattern_at ''[aaaaaaaaaaa] [bbbbbbbbbbb].mp4'' 14
   \<and> group_at ''[aaaaaaaaaaa] [bbbbbbbbbbb].mp4'' 14 = ''bbbbbbbbbbb''
   \<and> VIDEO_ID_PATTERN_search ''[aaaaaaaaaaa] [bbbbbbbbbbb].mp4'' = Some ''aaaaaaaaaaa''
   \<and> snd (get_all_video_ids_from_path
            (test_world PyNone ''.'' [''[aaaaaaaaaaa] [bbbbbbbbbbb].mp4'']) ''.'')
       = Inr [''aaaaaaaaaaa'']"
proof -
  have l: "\<forall>k<(0::nat). \<not> pattern_at ''[aaaaaaaaaaa] [bbbbbbbbbbb].mp4'' k" by simp
  have lt: "(0::nat) < 14" by simp
  have g: "group_at ''[aaaaaaaaaaa] [bbbbbbbbbbb].mp4'' 0 = ''aaaaaaaaaaa''"
    by (simp add: group_at_def)
  have g14: "group_at ''[aaaaaaaaaaa] [bbbbbbbbbbb].mp4'' 14 = ''bbbbbbbbbbb''"
    by (simp add: group_at_def)
  have w: "is_dir (test_world PyNone ''.'' [''[aaaaaaaaaaa] [bbbbbbbbbbb].mp4'']) ''.''
        = Inr True
      \<and> glob_star (test_world PyNone ''.'' [''[aaaaaaaaaaa] [bbbbbbbbbbb].mp4'']) ''.''
        = [''[aaaaaaaaaaa] [bbbbbbbbbbb].mp4'']"
    by (simp add: test_world_def)
  show ?thesis
    using first_match_is_used [OF two_tokens_0 two_tokens_14 lt l,
        where w = "test_world PyNone ''.'' [''[aaaaaaaaaaa] [bbbbbbbbbbb].mp4'']"
        and D = "''.''"]
      two_tokens_0 two_tokens_14 g g14 w
    by simp
qed

text \<open>
  C3. The claim as stated fails: an entry named
  \<^verbatim>\<open>[Official MV] My Video [dQw4w9WgXcQ].mp4\<close> contains the naming
  \<^verbatim>\<open>My Video [dQw4w9WgXcQ].mp4\<close>, and the lister extracts \<^verbatim>\<open>Official MV\<close> from it, since the
  search stops at the leftmost match.
\<close>

theorem official_mv_counterexample:
  "is_dir (test_world PyNone ''.'' [''[Official MV] My Video [dQw4w9WgXcQ].mp4'']) ''.''
       = Inr True
   \<and> glob_star (test_world PyNone ''.'' [''[Official MV] My Video [dQw4w9WgXcQ].mp4'']) ''.''
       = [''[Official MV] '' @ ''My Video [dQw4w9WgXcQ].mp4'']
   \<and> get_all_video_ids_from_path
         (test_world PyNone ''.'' [''[Official MV] My Video [dQw4w9WgXcQ].mp4'']) ''.''
       = ([IsDir ''.'', Glob ''.''], Inr [''Official MV''])
   \<and> ''dQw4w9WgXcQ'' \<notin> set [''Official MV'']"
  by (simp add: get_all_video_ids_from_path_def test_world_def scan_file_def newline_def)

lemma token_first:
  assumes "path = pre @ ''[dQw4w9WgXcQ]'' @ post" and "\<forall>k<length pre. \<not> pattern_at path k"
  shows "VIDEO_ID_PATTERN_search path = Some ''dQw4w9WgXcQ''"
proof -
  have p: "path = pre @ CHR ''['' # ''dQw4w9WgXcQ'' @ CHR '']'' # post"
    using assms(1) by simp
  have "pattern_at path (length pre) \<and> group_at path (length pre) = ''dQw4w9WgXcQ''"
    unfolding p by (rule pattern_at_token) (simp_all add: newline_def)
  then show ?thesis using search_first [of path "length pre"] assms(2) by simp
qed

text \<open>
  C3, amended. In an existing directory the lister does not fail. For an entry whose path
  text contains \<^verbatim>\<open>[dQw4w9WgXcQ]\<close> with no match of the pattern starting further left, the
  loop body adds \<^verbatim>\<open>dQw4w9WgXcQ\<close> and the lister returns it. For an entry whose path text has
  no bracketed run of eleven characters, the search finds nothing and the loop body leaves
  the identifiers as they are.
\<close>

theorem first_token_extracted_unmatched_skipped:
  assumes "is_dir w D = Inr True" and "path \<in> set (glob_star w D)"
  shows "(\<exists>ids. get_all_video_ids_from_path w D = ([IsDir D, Glob D], Inr ids)
           \<and> ((\<exists>pre post. path = pre @ ''[dQw4w9WgXcQ]'' @ post
                  \<and> (\<forall>k<length pre. \<not> pattern_at path k))
                \<longrightarrow> scan_file path acc = acc @ [''dQw4w9WgXcQ''] \<and> ''dQw4w9WgXcQ'' \<in> set ids))
       \<and> ((\<forall>k. \<not> bracketed_run_at path k)
            \<longrightarrow> VIDEO_ID_PATTERN_search path = None \<and> scan_file path acc = acc)"
proof -
  have a: "(\<exists>pre post. path = pre @ ''[dQw4w9WgXcQ]'' @ post
                  \<and> (\<forall>k<length pre. \<not> pattern_at path k))
      \<longrightarrow> scan_file path acc = acc @ [''dQw4w9WgXcQ'']
          \<and> ''dQw4w9WgXcQ'' \<in> set (remdups (fold scan_file (glob_star w D) []))"
  proof
    assume "\<exists>pre post. path = pre @ ''[dQw4w9WgXcQ]'' @ post
        \<and> (\<forall>k<length pre. \<not> pattern_at path k)"
    then obtain pre post where "path = pre @ ''[dQw4w9WgXcQ]'' @ post"
        "\<forall>k<length pre. \<not> pattern_at path k" by blast
    then have s: "VIDEO_ID_PATTERN_search path = Some ''dQw4w9WgXcQ''" by (rule token_first)
    then have "scan_file path acc = acc @ [''dQw4w9WgXcQ'']" by (simp add: scan_file_eq)
    moreover have "''dQw4w9WgXcQ'' \<in> set (remdups (fold scan_file (glob_star w D) []))"
      using s assms(2) by (auto simp: set_fold_scan_file)
    ultimately show "scan_file path acc = acc @ [''dQw4w9WgXcQ'']
          \<and> ''dQw4w9WgXcQ'' \<in> set (remdups (fold scan_file (glob_star w D) []))" by simp
  qed
  have b: "(\<forall>k. \<not> bracketed_run_at path k)
      \<longrightarrow> VIDEO_ID_PATTERN_search path = None \<and> scan_file path acc = acc"
  proof
    assume "\<forall>k. \<not> bracketed_run_at path k"
    then have "\<forall>k. \<not> pattern_at path k" by (simp add: pattern_at_def)
    then have "VIDEO_ID_PATTERN_search path = None" by (rule search_None)
    then show "VIDEO_ID_PATTERN_search path = None \<and> scan_file path acc = acc"
      by (simp add: scan_file_eq)
  qed
  have c: "get_all_video_ids_from_path w D
      = ([IsDir D, Glob D], Inr (remdups (fold scan_file (glob_star w D) [])))"
    using assms(1) by (rule local_lister_dir)
  from a b c show ?thesis by simp
qed

lemma my_video_world:
  "get_all_video_ids_from_path
     (test_world PyNone ''videos'' [''videos/My Video [dQw4w9WgXcQ].mp4'', ''videos/notes.txt''])
     ''videos''
   = ([IsDir ''videos'', Glob ''videos''], Inr [''dQw4w9WgXcQ''])"
  by (simp add: get_all_video_ids_from_path_def test_world_def scan_file_def newline_def)

theorem first_token_extracted_unmatched_skipped_witness:
  "get_all_video_ids_from_path
     (test_world PyNone ''videos'' [''videos/My Video [dQw4w9WgXcQ].mp4'', ''videos/notes.txt''])
     ''videos''
     = ([IsDir ''videos'', Glob ''videos''], Inr [''dQw4w9WgXcQ''])
   \<and> scan_file ''videos/My Video [dQw4w9WgXcQ].mp4'' [] = [''dQw4w9WgXcQ'']
   \<and> VIDEO_ID_PATTERN_search ''videos/notes.txt'' = None
   \<and> scan_file ''videos/notes.txt'' [''dQw4w9WgXcQ''] = [''dQw4w9WgXcQ'']"
proof -
  let ?w = "test_world PyNone ''videos''
      [''videos/My Video [dQw4w9WgXcQ].mp4'', ''videos/notes.txt'']"
  have d: "is_dir ?w ''videos'' = Inr True" by (simp add: test_world_def)
  have m1: "''videos/My Video [dQw4w9WgXcQ].mp4'' \<in> set (glob_star ?w ''videos'')"
    by (simp add: test_world_def)
  have m2: "''videos/notes.txt'' \<in> set (glob_star ?w ''videos'')"
    by (simp add: test_world_def)
  have e: "''videos/My Video [dQw4w9WgXcQ].mp4'' = ''videos/My Video '' @ ''[dQw4w9WgXcQ]'' @ ''.mp4''"
    by simp
  have "\<forall>k<length ''videos/My Video ''.
      \<not> pattern_at (''videos/My Video '' @ ''[dQw4w9WgXcQ]'' @ ''.mp4'') k"
    by (intro allI impI no_bracket_prefix) simp_all
  then have n: "\<forall>k<length ''videos/My Video ''. \<not> pattern_at ''videos/My Video [dQw4w9WgXcQ].mp4'' k"
    by simp
  have h1: "\<exists>pre post. ''videos/My Video [dQw4w9WgXcQ].mp4'' = pre @ ''[dQw4w9WgXcQ]'' @ post
      \<and> (\<forall>k<length pre. \<not> pattern_at ''videos/My Video [dQw4w9WgXcQ].mp4'' k)"
    using e n by blast
  have h2: "\<forall>k. \<not> bracketed_run_at ''videos/notes.txt'' k"
    by (intro allI no_bracket_no_run) simp
  show ?thesis
    using first_token_extracted_unmatched_skipped [OF d m1, of "[]"] h1
      first_token_extracted_unmatched_skipped [OF d m2, of "[''dQw4w9WgXcQ'']"] h2
    by (simp add: my_video_world)
qed

text \<open>
  C4. The claim as stated fails for the kind \<open>MalformedEntry\<close>: in the listing
  \<^verbatim>\<open>[{}, 5]\<close> the entry \<^verbatim>\<open>5\<close> is not a mapping, but the loop reaches the mapping without an
  \<^verbatim>\<open>id\<close> first and the lister fails with the key-lookup error.
\<close>

theorem keyless_entry_first_counterexample:
  "\<not> isinstance_dict (PyInt 5)
   \<and> PyInt 5 \<in> set [PyDict [], PyInt 5]
   \<and> extract_info (test_world (PyDict [(''entries'', PyList [PyDict [], PyInt 5])]) ''videos'' [])
        (channel_url ''@chan'')
       = Inr (PyDict [(''entries'', PyList [PyDict [], PyInt 5])])
   \<and> snd (get_all_video_ids_from_channel
        (test_world (PyDict [(''entries'', PyList [PyDict [], PyInt 5])]) ''videos'' []) ''@chan'')
       = Inl (KeyError ''id'')"
  by (simp add: get_all_video_ids_from_channel_def test_world_def ids_from_info_def
      dict_get_def dict_getitem_def)

text \<open>
  C4, amended. When the extraction call returns a result \<open>info\<close>, the remote lister fails
  with \<open>InvalidResponse\<close> exactly when \<open>info\<close> is not a mapping; with \<open>EmptyResult\<close> exactly when
  \<open>info\<close> is a mapping whose \<^verbatim>\<open>entries\<close> field is absent or is not a non-empty list; with
  \<open>MalformedEntry\<close> exactly when the entries are a list in which some entry is not a mapping
  and every entry before it is a mapping with an \<^verbatim>\<open>id\<close> field. The local lister fails with
  \<open>InvalidPath\<close> exactly when \<^verbatim>\<open>is_dir()\<close> answers that the path is not an existing directory;
  when \<^verbatim>\<open>is_dir()\<close> raises an \<^verbatim>\<open>OSError\<close> instead of answering, that error is the failure.
\<close>

theorem failure_kinds_of_the_listers:
  assumes "extract_info w (channel_url c) = Inr info"
  shows "(snd (get_all_video_ids_from_channel w c) = Inl InvalidResponse
            \<longleftrightarrow> \<not> isinstance_dict info)
       \<and> ((\<exists>x. snd (get_all_video_ids_from_channel w c) = Inl (EmptyResult x))
            \<longleftrightarrow> (\<exists>d. info = PyDict d
                   \<and> \<not> (\<exists>es. map_of d ''entries'' = Some (PyList es) \<and> es \<noteq> [])))
       \<and> (snd (get_all_video_ids_from_channel w c) = Inl MalformedEntry
            \<longleftrightarrow> (\<exists>d es i. info = PyDict d \<and> map_of d ''entries'' = Some (PyList es)
                   \<and> i < length es \<and> \<not> isinstance_dict (es ! i)
                   \<and> (\<forall>j<i. has_id (es ! j))))
       \<and> ((\<exists>x. snd (get_all_video_ids_from_path w p) = Inl (InvalidPath x))
            \<longleftrightarrow> is_dir w p = Inr False)
       \<and> ((\<exists>m. snd (get_all_video_ids_from_path w p) = Inl (OSError m))
            \<longleftrightarrow> (\<exists>m. is_dir w p = Inl m))"
proof -
  note r = remote_snd [OF assms]
  have a: "snd (get_all_video_ids_from_channel w c) = Inl InvalidResponse
            \<longleftrightarrow> \<not> isinstance_dict info"
    unfolding r by (rule ids_from_info_InvalidResponse_iff)
  have b: "(\<exists>x. snd (get_all_video_ids_from_channel w c) = Inl (EmptyResult x))
            \<longleftrightarrow> (\<exists>d. info = PyDict d
                   \<and> \<not> (\<exists>es. map_of d ''entries'' = Some (PyList es) \<and> es \<noteq> []))"
    unfolding r by (rule ids_from_info_EmptyResult_iff)
  have m: "snd (get_all_video_ids_from_channel w c) = Inl MalformedEntry
            \<longleftrightarrow> (\<exists>d es i. info = PyDict d \<and> map_of d ''entries'' = Some (PyList es)
                   \<and> i < length es \<and> \<not> isinstance_dict (es ! i)
                   \<and> (\<forall>j<i. has_id (es ! j)))"
    unfolding r by (rule ids_from_info_MalformedEntry_iff)
  have l: "(\<exists>x. snd (get_all_video_ids_from_path w p) = Inl (InvalidPath x))
            \<longleftrightarrow> is_dir w p = Inr False"
    by (auto simp: local_lister_eq split: sum.splits)
  have o: "(\<exists>m. snd (get_all_video_ids_from_path w p) = Inl (OSError m))
            \<longleftrightarrow> (\<exists>m. is_dir w p = Inl m)"
    by (auto simp: local_lister_eq split: sum.splits)
  from a b m l o show ?thesis by blast
qed

theorem failure_kinds_of_the_listers_witness:
  "extract_info
     (test_world (PyDict [(''entries'', PyList [PyDict [(''id'', PyStr ''aaaaaaaaaaa'')], PyInt 5])])
        ''videos'' []) (channel_url ''@chan'')
     = Inr (PyDict [(''entries'', PyList [PyDict [(''id'', PyStr ''aaaaaaaaaaa'')], PyInt 5])])
   \<and> snd (get_all_video_ids_from_channel
     (test_world (PyDict [(''entries'', PyList [PyDict [(''id'', PyStr ''aaaaaaaaaaa'')], PyInt 5])])
        ''videos'' []) ''@chan'') = Inl MalformedEntry
   \<and> snd (get_all_video_ids_from_channel
     (test_world (PyDict [(''entries'', PyList [PyDict [(''id'', PyStr ''aaaaaaaaaaa'')], PyInt 5])])
        ''videos'' []) ''@chan'') \<noteq> Inl InvalidResponse
   \<and> is_dir
     (test_world (PyDict [(''entries'', PyList [PyDict [(''id'', PyStr ''aaaaaaaaaaa'')], PyInt 5])])
        ''videos'' []) ''nowhere'' = Inr False
   \<and> snd (get_all_video_ids_from_path
     (test_world (PyDict [(''entries'', PyList [PyDict [(''id'', PyStr ''aaaaaaaaaaa'')], PyInt 5])])
        ''videos'' []) ''nowhere'') = Inl (InvalidPath ''nowhere'')"
proof -
  let ?es = "[PyDict [(''id'', PyStr ''aaaaaaaaaaa'')], PyInt 5]"
  let ?d = "[(''entries'', PyList ?es)]"
  let ?w = "test_world (PyDict ?d) ''videos'' []"
  have h: "extract_info ?w (channel_url ''@chan'') = Inr (PyDict ?d)"
    by (simp add: test_world_def)
  have "\<forall>j<(1::nat). has_id (?es ! j)" by (simp add: has_id_def)
  then have "map_of ?d ''entries'' = Some (PyList ?es) \<and> (1::nat) < length ?es
      \<and> \<not> isinstance_dict (?es ! 1) \<and> (\<forall>j<(1::nat). has_id (?es ! j))"
    by simp
  then have e: "\<exists>d es i. PyDict ?d = PyDict d \<and> map_of d ''entries'' = Some (PyList es)
      \<and> i < length es \<and> \<not> isinstance_dict (es ! i) \<and> (\<forall>j<i. has_id (es ! j))"
    by blast
  have dir: "is_dir ?w ''nowhere'' = Inr False" by (simp add: test_world_def)
  have loc: "snd (get_all_video_ids_from_path ?w ''nowhere'') = Inl (InvalidPath ''nowhere'')"
    by (simp add: failing_local)
  show ?thesis
    using failure_kinds_of_the_listers [OF h, of "''nowhere''"] e dir h loc by simp
qed

text \<open>
  C10. The claim as stated fails: in the listing \<^verbatim>\<open>[5, {}]\<close> the entry \<^verbatim>\<open>{}\<close> is a mapping
  without an \<^verbatim>\<open>id\<close> field, but the loop reaches the non-mapping first and the lister fails
  with \<open>MalformedEntry\<close>.
\<close>

theorem non_mapping_entry_first_counterexample:
  "lacks_id (PyDict [])
   \<and> PyDict [] \<in> set [PyInt 5, PyDict []]
   \<and> extract_info (test_world (PyDict [(''entries'', PyList [PyInt 5, PyDict []])]) ''videos'' [])
        (channel_url ''@chan'')
       = Inr (PyDict [(''entries'', PyList [PyInt 5, PyDict []])])
   \<and> snd (get_all_video_ids_from_channel
        (test_world (PyDict [(''entries'', PyList [PyInt 5, PyDict []])]) ''videos'' []) ''@chan'')
       = Inl MalformedEntry"
  by (simp add: get_all_video_ids_from_channel_def test_world_def ids_from_info_def
      dict_get_def dict_getitem_def lacks_id_def)

text \<open>
  C10, amended. When the entries are the list \<open>es\<close>, the remote lister fails with the
  key-lookup error exactly when some entry is a mapping without an \<^verbatim>\<open>id\<close> field and every
  entry before it is a mapping with one; that error is none of the four named kinds. The
  identifiers are not validated: when every entry is a mapping with a hashable \<^verbatim>\<open>id\<close>
  value, the lister returns the set of those values, whatever they are.
\<close>

theorem missing_id_is_a_key_error_and_ids_are_not_validated:
  assumes "extract_info w (channel_url c) = Inr (PyDict d)"
    and "map_of d ''entries'' = Some (PyList es)"
  shows "(snd (get_all_video_ids_from_channel w c) = Inl (KeyError ''id'')
            \<longleftrightarrow> (\<exists>i<length es. lacks_id (es ! i) \<and> (\<forall>j<i. has_id (es ! j))))
       \<and> KeyError ''id'' \<notin> {InvalidResponse, EmptyResult x, MalformedEntry, InvalidPath y}
       \<and> (es \<noteq> [] \<and> (\<forall>e\<in>set es. has_id e \<and> hashable (id_of e))
            \<longrightarrow> (\<exists>ids. snd (get_all_video_ids_from_channel w c) = Inr ids
                   \<and> set ids = id_of ` set es))"
proof -
  note r = remote_snd [OF assms(1)]
  have k: "snd (get_all_video_ids_from_channel w c) = Inl (KeyError ''id'')
            \<longleftrightarrow> (\<exists>i<length es. lacks_id (es ! i) \<and> (\<forall>j<i. has_id (es ! j)))"
  proof (cases "es = []")
    case True
    with assms(2) have "ids_from_info c (PyDict d) = Inl (EmptyResult c)"
      by (simp add: ids_from_info_no_entries)
    with True show ?thesis unfolding r by simp
  next
    case False
    have "ids_from_info c (PyDict d) = Inl (KeyError ''id'')
        \<longleftrightarrow> collect_ids es [] = Inl (KeyError ''id'')"
      using assms(2) False py_set_error
      by (auto simp: ids_from_info_entries split: sum.splits)
    then show ?thesis unfolding r by (simp add: collect_ids_KeyError_iff)
  qed
  have v: "es \<noteq> [] \<and> (\<forall>e\<in>set es. has_id e \<and> hashable (id_of e))
            \<longrightarrow> (\<exists>ids. snd (get_all_video_ids_from_channel w c) = Inr ids
                   \<and> set ids = id_of ` set es)"
  proof
    assume a: "es \<noteq> [] \<and> (\<forall>e\<in>set es. has_id e \<and> hashable (id_of e))"
    then have "\<forall>e\<in>set es. has_id e" by blast
    then have c: "collect_ids es [] = Inr ([] @ map id_of es)" by (rule collect_ids_ok)
    have "list_all hashable (map id_of es)" using a by (simp add: list_all_iff)
    then have "py_set (map id_of es) = Inr (remdups (map id_of es))" by (simp add: py_set_def)
    with c a assms(2) have "ids_from_info c (PyDict d) = Inr (remdups (map id_of es))"
      by (simp add: ids_from_info_entries)
    then show "\<exists>ids. snd (get_all_video_ids_from_channel w c) = Inr ids
        \<and> set ids = id_of ` set es"
      unfolding r by simp
  qed
  from k v show ?thesis by simp
qed

theorem missing_id_is_a_key_error_and_ids_are_not_validated_witness:
  "snd (get_all_video_ids_from_channel
     (test_world (PyDict [(''entries'', PyList [PyDict [(''id'', PyStr ''abc'')], PyDict []])])
        ''videos'' []) ''@chan'') = Inl (KeyError ''id'')
   \<and> snd (get_all_video_ids_from_channel
     (test_world (listing [PyStr ''abc'', PyInt 7]) ''videos'' []) ''@chan'')
     = Inr [PyStr ''abc'', PyInt 7]"
proof -
  let ?es = "[PyDict [(''id'', PyStr ''abc'')], PyDict []]"
  let ?d = "[(''entries'', PyList ?es)]"
  let ?w = "test_world (PyDict ?d) ''videos'' []"
  have h1: "extract_info ?w (channel_url ''@chan'') = Inr (PyDict ?d)"
    by (simp add: test_world_def)
  have h2: "map_of ?d ''entries'' = Some (PyList ?es)" by simp
  have "\<forall>j<(1::nat). has_id (?es ! j)" by (simp add: has_id_def)
  then have "(1::nat) < length ?es \<and> lacks_id (?es ! 1) \<and> (\<forall>j<(1::nat). has_id (?es ! j))"
    by (simp add: lacks_id_def)
  then have e: "\<exists>i<length ?es. lacks_id (?es ! i) \<and> (\<forall>j<i. has_id (?es ! j))" by blast
  have first: "snd (get_all_video_ids_from_channel ?w ''@chan'') = Inl (KeyError ''id'')"
    using missing_id_is_a_key_error_and_ids_are_not_validated [OF h1 h2] e by blast
  let ?es2 = "[PyDict [(''id'', PyStr ''abc'')], PyDict [(''id'', PyInt 7)]]"
  let ?d2 = "[(''entries'', PyList ?es2)]"
  let ?w2 = "test_world (listing [PyStr ''abc'', PyInt 7]) ''videos'' []"
  have l: "listing [PyStr ''abc'', PyInt 7] = PyDict ?d2" by (simp add: listing_def)
  have second: "snd (get_all_video_ids_from_channel ?w2 ''@chan'') = Inr [PyStr ''abc'', PyInt 7]"
    by (simp add: get_all_video_ids_from_channel_def test_world_def l ids_from_info_def
        dict_get_def dict_getitem_def py_set_def)
  from first second show ?thesis by simp
qed

end
